theory Spec2Isabelle
  imports Main "HOL-Library.Word"
begin

section \<open>Data model of collective\_select\_folder.cc\<close>

text \<open>
  \<open>int64_t\<close> values (the constant of the compare, the source and target ids of a
  routing table) are 64-bit words. The pass only compares them with \<open>==\<close> and \<open>!=\<close>.
\<close>

type_synonym int64 = "64 word"

type_synonym SourceTargetPair = "int64 \<times> int64"
type_synonym SourceTargetPairs = "SourceTargetPair list"

text \<open>
  Modelled from the spec: \<open>Comparison::Direction\<close> is declared in
  xla/comparison\_util.h, which is not among the sources. The source names \<open>kEq\<close> and
  \<open>kNe\<close>; the other four directions are the less-than, greater-than, \<dots> directions
  that a compare instruction can carry.
\<close>

datatype Direction = kEq | kNe | kGe | kGt | kLe | kLt

text \<open>
  Modelled from the spec: \<open>CollectiveOpGroupMode\<close> is declared in
  xla/service/collective\_ops\_utils.h, which is not among the sources. Spec section 3:
  an enumeration {cross-replica, cross-partition}.
\<close>

datatype CollectiveOpGroupMode = kCrossReplica | kCrossPartition

text \<open>
  Modelled from the spec: \<open>HloOpcode\<close> is a closed enumeration declared outside the
  sources. The seven opcodes the pass inspects are kept by name; \<open>kOther n\<close> stands for
  every other opcode of the enumeration.
\<close>

datatype HloOpcode =
    kSelect | kBroadcast | kCompare | kReplicaId | kPartitionId | kConstant
  | kCollectivePermute | kOther nat

text \<open>
  Modelled from the spec: the literal of a constant instruction and
  \<open>Literal::GetFirstInteger\<close> (declared outside the sources). Spec section 4.1: a single
  integer value is extracted, the first element if the literal has structure; the
  extraction can fail.
\<close>

datatype Literal = IntegerLiteral "int64 list" | NonIntegerLiteral

fun GetFirstInteger :: "Literal \<Rightarrow> int64 option" where
  "GetFirstInteger (IntegerLiteral (x # xs)) = Some x"
| "GetFirstInteger (IntegerLiteral []) = None"
| "GetFirstInteger NonIntegerLiteral = None"

text \<open>
  An instruction: its opcode, its ordered operand references, and the payload of the
  subclasses the pass casts to (\<open>HloCompareInstruction::direction\<close>, the literal of a
  constant, \<open>channel_id\<close> and \<open>source_target_pairs\<close> of a collective-permute). A
  \<open>HloInstruction*\<close> is an index into the module's arena of instructions.
\<close>

type_synonym ptr = nat

record HloInstruction =
  opcode :: HloOpcode
  operands :: "ptr list"
  direction :: Direction
  literal :: Literal
  channel_id :: "int64 option"
  source_target_pairs :: SourceTargetPairs

text \<open>
  A module: the arena of its instructions and, for each computation in order, the
  ordered list of the instructions the computation owns.
\<close>

record HloModule =
  instructions :: "HloInstruction list"
  computations :: "ptr list list"

text \<open>\<open>absl::Status\<close> error values; the message text is not modelled.\<close>

datatype Status = InvalidArgument | Internal

text \<open>
  Every way the C++ code leaves the normal path: an operand index out of range or a
  reference to no instruction of the module (undefined behaviour in C++), the \<open>assert\<close>
  of the evaluator in a build without \<open>NDEBUG\<close>, and a returned error status.
\<close>

datatype failure = InvalidAccess | AssertionFailure | StatusError Status

definition deref :: "HloModule \<Rightarrow> ptr \<Rightarrow> HloInstruction option" where
  "deref m p = (if p < length (instructions m) then Some (instructions m ! p) else None)"

definition operand :: "HloInstruction \<Rightarrow> nat \<Rightarrow> ptr option" where
  "operand i k = (if k < length (operands i) then Some (operands i ! k) else None)"

record FoldableSelect =
  cmp_direction :: Direction
  constant_id :: int64
  collective_mode :: CollectiveOpGroupMode
  true_operand :: ptr
  false_operand :: ptr

section \<open>The static predicate evaluator\<close>

text \<open>The lambda \<open>predicate\<close> of \<open>StaticallyEvaluatePredicateForAllSourceIDs\<close>.\<close>

definition predicate :: "FoldableSelect \<Rightarrow> SourceTargetPair \<Rightarrow> bool" where
  "predicate select_match pair =
     (let src_id = fst pair in
      if cmp_direction select_match = kEq
      then src_id = constant_id select_match
      else src_id \<noteq> constant_id select_match)"

text \<open>The \<open>while\<close> loop over the remaining pairs.\<close>

fun check_remaining :: "FoldableSelect \<Rightarrow> bool \<Rightarrow> SourceTargetPairs \<Rightarrow> bool option" where
  "check_remaining select_match result_candidate [] = Some result_candidate"
| "check_remaining select_match result_candidate (p # ps) =
     (if result_candidate \<noteq> predicate select_match p then None
      else check_remaining select_match result_candidate ps)"

text \<open>
  \<open>ndebug\<close> says whether the build defines \<open>NDEBUG\<close>: if it does not, the \<open>assert\<close>
  on the direction is checked, after the test for an empty table.
\<close>

definition StaticallyEvaluatePredicateForAllSourceIDs ::
  "bool \<Rightarrow> FoldableSelect \<Rightarrow> SourceTargetPairs \<Rightarrow> failure + bool option" where
  "StaticallyEvaluatePredicateForAllSourceIDs ndebug select_match pairs =
     (case pairs of
        [] \<Rightarrow> Inr None
      | p # rest \<Rightarrow>
          if \<not> ndebug \<and> \<not> (cmp_direction select_match = kEq \<or> cmp_direction select_match = kNe)
          then Inl AssertionFailure
          else Inr (check_remaining select_match (predicate select_match p) rest))"

text \<open>
  Point-evaluation in the words of the specification (section 4.3): true iff the
  direction is "equal" and the source id equals the constant, or the direction is
  "not-equal" and the source id differs from the constant.
\<close>

definition spec_point_evaluation :: "FoldableSelect \<Rightarrow> int64 \<Rightarrow> bool" where
  "spec_point_evaluation select_match src_id \<longleftrightarrow>
     (cmp_direction select_match = kEq \<and> src_id = constant_id select_match) \<or>
     (cmp_direction select_match = kNe \<and> src_id \<noteq> constant_id select_match)"

section \<open>The pattern matcher\<close>

text \<open>
  \<open>MatchFoldableSelect\<close>. The operand references are read where the source reads them
  and followed where the source first looks at the instruction.

  Modelled from the spec: the class test behind \<open>DynCast<HloCompareInstruction>\<close> is
  declared outside the sources. Spec section 4.1: the unwrapped predicate must be a
  Compare instruction, so the cast succeeds on the opcode \<open>kCompare\<close>.
\<close>

definition MatchFoldableSelect ::
  "HloModule \<Rightarrow> ptr \<Rightarrow> failure + FoldableSelect option" where
  "MatchFoldableSelect m select =
     (case deref m select of
        None \<Rightarrow> Inl InvalidAccess
      | Some sel \<Rightarrow>
     if opcode sel \<noteq> kSelect then Inr None else
     (case operand sel 0 of
        None \<Rightarrow> Inl InvalidAccess
      | Some p0 \<Rightarrow>
     (case deref m p0 of
        None \<Rightarrow> Inl InvalidAccess
      | Some predicate_candidate0 \<Rightarrow>
     (case (if opcode predicate_candidate0 = kBroadcast
            then (case operand predicate_candidate0 0 of
                    None \<Rightarrow> None
                  | Some p1 \<Rightarrow> deref m p1)
            else Some predicate_candidate0) of
        None \<Rightarrow> Inl InvalidAccess
      | Some predicate_candidate \<Rightarrow>
     if opcode predicate_candidate \<noteq> kCompare then Inr None else
     (case operand predicate_candidate 0 of
        None \<Rightarrow> Inl InvalidAccess
      | Some id_ptr \<Rightarrow>
     (case operand predicate_candidate 1 of
        None \<Rightarrow> Inl InvalidAccess
      | Some constant_ptr \<Rightarrow>
     (case deref m id_ptr of
        None \<Rightarrow> Inl InvalidAccess
      | Some id_op \<Rightarrow>
     (case (if opcode id_op = kReplicaId then Some kCrossReplica
            else if opcode id_op = kPartitionId then Some kCrossPartition
            else None) of
        None \<Rightarrow> Inr None
      | Some mode \<Rightarrow>
     (case deref m constant_ptr of
        None \<Rightarrow> Inl InvalidAccess
      | Some constant_op \<Rightarrow>
     if opcode constant_op \<noteq> kConstant then Inr None else
     (case GetFirstInteger (literal constant_op) of
        None \<Rightarrow> Inr None
      | Some c \<Rightarrow>
     (case operand sel 1 of
        None \<Rightarrow> Inl InvalidAccess
      | Some t \<Rightarrow>
     (case operand sel 2 of
        None \<Rightarrow> Inl InvalidAccess
      | Some f \<Rightarrow>
          Inr (Some \<lparr>cmp_direction = direction predicate_candidate,
                     constant_id = c,
                     collective_mode = mode,
                     true_operand = t,
                     false_operand = f\<rparr>)))))))))))))"

section \<open>The rewriter and the pass driver\<close>

text \<open>
  Modelled from the spec: \<open>HloInstruction::ReplaceOperandWith\<close> is defined outside the
  sources. Spec section 4.4: a single operand-slot update that also keeps the reverse-use
  bookkeeping consistent. The users of an instruction are not stored here but read off
  the operand lists (\<open>users\<close> below), so the bookkeeping follows the slot update. A slot
  that does not exist is answered with an error status.
\<close>

definition ReplaceOperandWith ::
  "HloModule \<Rightarrow> ptr \<Rightarrow> nat \<Rightarrow> ptr \<Rightarrow> (Status + unit) \<times> HloModule" where
  "ReplaceOperandWith m inst operand_num new_operand =
     (case deref m inst of
        None \<Rightarrow> (Inl Internal, m)
      | Some i \<Rightarrow>
          if operand_num < length (operands i)
          then (Inr (),
                m\<lparr>instructions :=
                    (instructions m)[inst := i\<lparr>operands := (operands i)[operand_num := new_operand]\<rparr>]\<rparr>)
          else (Inl Internal, m))"

definition users :: "HloModule \<Rightarrow> ptr \<Rightarrow> ptr list" where
  "users m p =
     filter (\<lambda>q. p \<in> set (operands (instructions m ! q))) [0..<length (instructions m)]"

text \<open>
  \<open>TryFoldColectivePermuteOfSelect\<close>. The module is mutated in place in C++; here it is
  passed in and returned.

  Modelled from the spec: the class test behind
  \<open>DynCast<HloCollectivePermuteInstruction>\<close> is declared outside the sources. Spec
  section 4.1: the candidate must be a collective-permute operation, so the cast succeeds
  on the opcode \<open>kCollectivePermute\<close>.

  \<open>GetCollectiveOpGroupMode\<close> is defined in xla/service/collective\_ops\_utils.cc, which
  is not among the sources: it is the parameter \<open>gm\<close>, applied as the source applies it,
  to \<open>cp->channel_id().has_value()\<close> and \<open>std::nullopt\<close>.
\<close>

type_synonym GroupModeFn = "bool \<Rightarrow> bool option \<Rightarrow> Status + CollectiveOpGroupMode"

definition TryFoldColectivePermuteOfSelect ::
  "bool \<Rightarrow> GroupModeFn \<Rightarrow> HloModule \<Rightarrow> ptr \<Rightarrow> (failure + bool) \<times> HloModule" where
  "TryFoldColectivePermuteOfSelect ndebug gm m inst =
     (case deref m inst of
        None \<Rightarrow> (Inl InvalidAccess, m)
      | Some cp \<Rightarrow>
     if opcode cp \<noteq> kCollectivePermute then (Inr False, m) else
     (case operand cp 0 of
        None \<Rightarrow> (Inl InvalidAccess, m)
      | Some sel \<Rightarrow>
     (case MatchFoldableSelect m sel of
        Inl e \<Rightarrow> (Inl e, m)
      | Inr None \<Rightarrow> (Inr False, m)
      | Inr (Some select_match) \<Rightarrow>
     (case gm (channel_id cp \<noteq> None) None of
        Inl st \<Rightarrow> (Inl (StatusError st), m)
      | Inr mode \<Rightarrow>
     if mode \<noteq> collective_mode select_match then (Inr False, m) else
     (case StaticallyEvaluatePredicateForAllSourceIDs ndebug select_match
             (source_target_pairs cp) of
        Inl e \<Rightarrow> (Inl e, m)
      | Inr None \<Rightarrow> (Inr False, m)
      | Inr (Some predicate_value) \<Rightarrow>
          (let new_operand = (if predicate_value then true_operand select_match
                              else false_operand select_match)
           in case ReplaceOperandWith m inst 0 new_operand of
                (Inl st, m') \<Rightarrow> (Inl (StatusError st), m')
              | (Inr u, m') \<Rightarrow> (Inr True, m')))))))"

text \<open>
  \<open>CollectiveSelectFolder::Run\<close>: the inner loop over the instructions of one
  computation, the outer loop over the computations, \<open>changed\<close> threaded through both.
  An error leaves both loops at once. The argument \<open>execution_threads\<close> is not used
  by the source and is left out.
\<close>

fun run_instructions ::
  "bool \<Rightarrow> GroupModeFn \<Rightarrow> bool \<Rightarrow> HloModule \<Rightarrow> ptr list \<Rightarrow> (failure + bool) \<times> HloModule" where
  "run_instructions ndebug gm changed m [] = (Inr changed, m)"
| "run_instructions ndebug gm changed m (inst # insts) =
     (case TryFoldColectivePermuteOfSelect ndebug gm m inst of
        (Inl e, m') \<Rightarrow> (Inl e, m')
      | (Inr local_changed, m') \<Rightarrow>
          run_instructions ndebug gm (changed \<or> local_changed) m' insts)"

fun run_computations ::
  "bool \<Rightarrow> GroupModeFn \<Rightarrow> bool \<Rightarrow> HloModule \<Rightarrow> ptr list list \<Rightarrow> (failure + bool) \<times> HloModule" where
  "run_computations ndebug gm changed m [] = (Inr changed, m)"
| "run_computations ndebug gm changed m (computation # rest) =
     (case run_instructions ndebug gm changed m computation of
        (Inl e, m') \<Rightarrow> (Inl e, m')
      | (Inr changed', m') \<Rightarrow> run_computations ndebug gm changed' m' rest)"

definition Run :: "bool \<Rightarrow> GroupModeFn \<Rightarrow> HloModule \<Rightarrow> (failure + bool) \<times> HloModule" where
  "Run ndebug gm module = run_computations ndebug gm False module (computations module)"

section \<open>What a run can change\<close>

text \<open>
  \<open>mask_data_operands\<close> overwrites operand slot 0 of every collective-permute with a fixed
  reference. Two modules with the same mask differ at most in the data operand of their
  collective-permutes: they have the same instructions otherwise and the same
  computations.
\<close>

definition mask_instruction :: "HloInstruction \<Rightarrow> HloInstruction" where
  "mask_instruction x =
     (if opcode x = kCollectivePermute then x\<lparr>operands := (operands x)[0 := 0]\<rparr> else x)"

definition mask_data_operands :: "HloModule \<Rightarrow> HloModule" where
  "mask_data_operands m = m\<lparr>instructions := map mask_instruction (instructions m)\<rparr>"

text \<open>
  An instruction is settled in a module when the pass leaves the module unchanged at it
  and reports no change and no error.
\<close>

definition settled :: "bool \<Rightarrow> GroupModeFn \<Rightarrow> HloModule \<Rightarrow> ptr \<Rightarrow> bool" where
  "settled ndebug gm m inst \<longleftrightarrow> TryFoldColectivePermuteOfSelect ndebug gm m inst = (Inr False, m)"

text \<open>
  No select of the module has a select as operand 1 or operand 2 (the operands after
  the predicate), and these operands refer to instructions of the module.
\<close>

definition select_branches_not_select :: "HloModule \<Rightarrow> bool" where
  "select_branches_not_select m =
     list_all (\<lambda>sel.
        if opcode sel = kSelect
        then list_all (\<lambda>t. case deref m t of None \<Rightarrow> False | Some x \<Rightarrow> opcode x \<noteq> kSelect)
               (tl (operands sel))
        else True) (instructions m)"

section \<open>Example modules\<close>

text \<open>
  Instructions and modules on which the theorems below are evaluated. \<open>instr\<close> builds an
  instruction with no payload; the payload of a compare, a constant and a
  collective-permute is set on top.
\<close>

definition instr :: "HloOpcode \<Rightarrow> ptr list \<Rightarrow> HloInstruction" where
  "instr oc ops = \<lparr>opcode = oc, operands = ops, direction = kEq,
     literal = NonIntegerLiteral, channel_id = None, source_target_pairs = []\<rparr>"

definition compare_instr :: "Direction \<Rightarrow> ptr \<Rightarrow> ptr \<Rightarrow> HloInstruction" where
  "compare_instr d lhs rhs = (instr kCompare [lhs, rhs])\<lparr>direction := d\<rparr>"

definition constant_instr :: "int64 \<Rightarrow> HloInstruction" where
  "constant_instr c = (instr kConstant [])\<lparr>literal := IntegerLiteral [c]\<rparr>"

definition collective_permute_instr ::
  "ptr \<Rightarrow> int64 option \<Rightarrow> SourceTargetPairs \<Rightarrow> HloInstruction" where
  "collective_permute_instr data ch pairs =
     (instr kCollectivePermute [data])\<lparr>channel_id := ch, source_target_pairs := pairs\<rparr>"

text \<open>
  Instructions 0 to 5 of the examples: \<open>select(compare(id, constant(0)), T, F)\<close> with the
  identity op at 0, the constant at 1, the compare at 2, \<open>T\<close> at 3, \<open>F\<close> at 4 and the
  select at 5.
\<close>

definition select_graph :: "HloOpcode \<Rightarrow> Direction \<Rightarrow> HloInstruction list" where
  "select_graph id_opcode d =
     [instr id_opcode [], constant_instr 0, compare_instr d 0 1,
      instr (kOther 0) [], instr (kOther 0) [], instr kSelect [2, 3, 4]]"

text \<open>
  One computation: the select graph and, at 6, a collective-permute whose data operand
  is \<open>data\<close> (5 for the select).
\<close>

definition permute_module ::
  "HloOpcode \<Rightarrow> Direction \<Rightarrow> ptr \<Rightarrow> int64 option \<Rightarrow> SourceTargetPairs \<Rightarrow> HloModule" where
  "permute_module id_opcode d data ch pairs =
     \<lparr>instructions = select_graph id_opcode d @ [collective_permute_instr data ch pairs],
      computations = [[0, 1, 2, 3, 4, 5, 6]]\<rparr>"

text \<open>
  A select whose true operand is a select on the same predicate:
  \<open>select(p, select(p, T, F), F2)\<close> at 7, with \<open>F2\<close> at 6, and at 8 a
  collective-permute whose data operand is \<open>data\<close> (7 for the outer select).
\<close>

definition nested_select_module :: "ptr \<Rightarrow> HloModule" where
  "nested_select_module data =
     \<lparr>instructions = select_graph kPartitionId kNe @
        [instr (kOther 0) [], instr kSelect [2, 5, 6],
         collective_permute_instr data (Some 1) [(1, 0)]],
      computations = [[0, 1, 2, 3, 4, 5, 6, 7, 8]]\<rparr>"

text \<open>
  Two instances of the parameter \<open>gm\<close>. Both answer cross-partition for a
  collective-permute with a channel id; without one, the first answers cross-replica
  and the second fails.
\<close>

definition channel_group_mode :: GroupModeFn where
  "channel_group_mode has_channel_id use_global_device_ids =
     Inr (if has_channel_id then kCrossPartition else kCrossReplica)"

definition strict_group_mode :: GroupModeFn where
  "strict_group_mode has_channel_id use_global_device_ids =
     (if has_channel_id then Inr kCrossPartition else Inl InvalidArgument)"

definition example_record :: FoldableSelect where
  "example_record = \<lparr>cmp_direction = kNe, constant_id = 0, collective_mode = kCrossPartition,
     true_operand = 3, false_operand = 4\<rparr>"

text \<open>
  Three collective-permutes of the select, in two computations: at 6 with channel id 1,
  at 7 without a channel id, at 8 with channel id 2. Their data operands are \<open>d1\<close>,
  \<open>d2\<close> and \<open>d3\<close> (5 for the select).
\<close>

definition three_permutes_module :: "ptr \<Rightarrow> ptr \<Rightarrow> ptr \<Rightarrow> HloModule" where
  "three_permutes_module d1 d2 d3 =
     \<lparr>instructions = select_graph kPartitionId kNe @
        [collective_permute_instr d1 (Some 1) [(1, 0)],
         collective_permute_instr d2 None [(1, 0)],
         collective_permute_instr d3 (Some 2) [(1, 0)]],
      computations = [[0, 1, 2, 3, 4, 5, 6], [7, 8]]\<rparr>"

text \<open>
  Broadcasts around the predicate: a broadcast of the compare at 5, a broadcast of that
  broadcast at 6, and at 7 a select whose predicate is \<open>pp\<close> (2, 5 or 6).
\<close>

definition broadcast_select_module :: "ptr \<Rightarrow> HloModule" where
  "broadcast_select_module pp =
     \<lparr>instructions =
        [instr kPartitionId [], constant_instr 0, compare_instr kEq 0 1,
         instr (kOther 0) [], instr (kOther 0) [],
         instr kBroadcast [2], instr kBroadcast [5], instr kSelect [pp, 3, 4]],
      computations = [[0, 1, 2, 3, 4, 5, 6, 7]]\<rparr>"

text \<open>The symmetric compare: the constant is operand 0 and the identity op operand 1.\<close>

definition swapped_compare_module :: HloModule where
  "swapped_compare_module =
     \<lparr>instructions =
        [instr kPartitionId [], constant_instr 0, compare_instr kEq 1 0,
         instr (kOther 0) [], instr (kOther 0) [], instr kSelect [2, 3, 4]],
      computations = [[0, 1, 2, 3, 4, 5]]\<rparr>"

lemmas example_defs =
  permute_module_def select_graph_def instr_def compare_instr_def constant_instr_def
  collective_permute_instr_def deref_def channel_group_mode_def strict_group_mode_def
  three_permutes_module_def broadcast_select_module_def swapped_compare_module_def

section \<open>Helper lemmas\<close>

lemma predicate_spec_point_evaluation:
  "cmp_direction sm = kEq \<or> cmp_direction sm = kNe \<Longrightarrow>
   predicate sm p = spec_point_evaluation sm (fst p)"
  by (auto simp: predicate_def spec_point_evaluation_def)

lemma check_remaining_Some:
  "check_remaining sm c ps = Some b \<longleftrightarrow> b = c \<and> (\<forall>p \<in> set ps. predicate sm p = c)"
  by (induction ps) auto

lemma check_remaining_None:
  "check_remaining sm c ps = None \<longleftrightarrow> (\<exists>p \<in> set ps. predicate sm p \<noteq> c)"
  by (induction ps) auto

lemma MatchFoldableSelect_SomeD:
  assumes "MatchFoldableSelect m s = Inr (Some sm)"
  shows "\<exists>sel p0 pc0 pc id_ptr constant_ptr id_op constant_op.
           deref m s = Some sel \<and> opcode sel = kSelect \<and>
           operand sel 0 = Some p0 \<and> deref m p0 = Some pc0 \<and>
           (if opcode pc0 = kBroadcast
            then (\<exists>p1. operand pc0 0 = Some p1 \<and> deref m p1 = Some pc)
            else pc = pc0) \<and>
           opcode pc = kCompare \<and>
           operand pc 0 = Some id_ptr \<and> operand pc 1 = Some constant_ptr \<and>
           deref m id_ptr = Some id_op \<and>
           (opcode id_op = kReplicaId \<and> collective_mode sm = kCrossReplica \<or>
            opcode id_op = kPartitionId \<and> collective_mode sm = kCrossPartition) \<and>
           deref m constant_ptr = Some constant_op \<and> opcode constant_op = kConstant \<and>
           GetFirstInteger (literal constant_op) = Some (constant_id sm) \<and>
           cmp_direction sm = direction pc \<and>
           operand sel 1 = Some (true_operand sm) \<and>
           operand sel 2 = Some (false_operand sm)"
  using assms unfolding MatchFoldableSelect_def
  by (auto split: option.splits if_splits)

lemma TryFold_cases:
  assumes "TryFoldColectivePermuteOfSelect ndebug gm m inst = (r, m')"
  shows "(r \<noteq> Inr True \<and> m' = m) \<or>
         (r = Inr True \<and>
          (\<exists>cp sel sm pv.
             deref m inst = Some cp \<and> opcode cp = kCollectivePermute \<and>
             operand cp 0 = Some sel \<and> MatchFoldableSelect m sel = Inr (Some sm) \<and>
             gm (channel_id cp \<noteq> None) None = Inr (collective_mode sm) \<and>
             StaticallyEvaluatePredicateForAllSourceIDs ndebug sm (source_target_pairs cp) =
               Inr (Some pv) \<and>
             m' = m\<lparr>instructions := (instructions m)[inst := cp\<lparr>operands :=
                     (operands cp)[0 := (if pv then true_operand sm else false_operand sm)]\<rparr>]\<rparr>))"
  using assms unfolding TryFoldColectivePermuteOfSelect_def ReplaceOperandWith_def Let_def
  by (auto simp: operand_def split: option.splits if_splits sum.splits prod.splits)

lemma opcode_mask_instruction [simp]: "opcode (mask_instruction x) = opcode x"
  by (simp add: mask_instruction_def)

lemma mask_instruction_other:
  "opcode x \<noteq> kCollectivePermute \<Longrightarrow> mask_instruction x = x"
  by (simp add: mask_instruction_def)

lemma deref_mask:
  "deref (mask_data_operands m) p = map_option mask_instruction (deref m p)"
  by (simp add: deref_def mask_data_operands_def)

lemma MatchFoldableSelect_mask:
  "MatchFoldableSelect (mask_data_operands m) s = MatchFoldableSelect m s"
  unfolding MatchFoldableSelect_def deref_mask
  by (auto simp: mask_instruction_other split: option.splits)

lemma MatchFoldableSelect_frame:
  "mask_data_operands m' = mask_data_operands m \<Longrightarrow>
   MatchFoldableSelect m' s = MatchFoldableSelect m s"
  by (metis MatchFoldableSelect_mask)

lemma mask_update:
  assumes "deref m inst = Some cp" "opcode cp = kCollectivePermute"
  shows "mask_data_operands
           (m\<lparr>instructions := (instructions m)[inst := cp\<lparr>operands := (operands cp)[0 := new]\<rparr>]\<rparr>)
         = mask_data_operands m"
proof -
  have i: "inst < length (instructions m)" and cp: "instructions m ! inst = cp"
    using assms(1) by (auto simp: deref_def split: if_splits)
  have "mask_instruction (cp\<lparr>operands := (operands cp)[0 := new]\<rparr>) = mask_instruction cp"
    using assms(2) by (simp add: mask_instruction_def)
  then have "map mask_instruction ((instructions m)[inst := cp\<lparr>operands := (operands cp)[0 := new]\<rparr>])
        = map mask_instruction (instructions m)"
    using i cp by (simp add: map_update list_update_same_conv)
  then show ?thesis
    by (simp add: mask_data_operands_def)
qed

lemma TryFold_mask:
  assumes "TryFoldColectivePermuteOfSelect ndebug gm m inst = (r, m')"
  shows "mask_data_operands m' = mask_data_operands m"
  using TryFold_cases [OF assms] by (auto simp: mask_update)

lemma TryFold_deref_other:
  assumes "TryFoldColectivePermuteOfSelect ndebug gm m inst = (r, m')" "p \<noteq> inst"
  shows "deref m' p = deref m p"
  using TryFold_cases [OF assms(1)] assms(2) by (auto simp: deref_def)

lemma mask_length:
  "mask_data_operands m' = mask_data_operands m \<Longrightarrow>
   length (instructions m') = length (instructions m)"
  by (drule arg_cong [where f = "\<lambda>x. length (instructions x)"])
     (simp add: mask_data_operands_def)

lemma mask_computations:
  "mask_data_operands m' = mask_data_operands m \<Longrightarrow> computations m' = computations m"
  by (drule arg_cong [where f = computations]) (simp add: mask_data_operands_def)

lemma mask_deref_opcode:
  assumes "mask_data_operands m' = mask_data_operands m" "deref m p = Some x"
  shows "\<exists>x'. deref m' p = Some x' \<and> opcode x' = opcode x \<and>
               (opcode x \<noteq> kCollectivePermute \<longrightarrow> x' = x)"
proof -
  have "map_option mask_instruction (deref m' p) = map_option mask_instruction (deref m p)"
    using assms(1) by (metis deref_mask)
  then obtain x' where x': "deref m' p = Some x'" "mask_instruction x' = mask_instruction x"
    using assms(2) by auto
  have "opcode x' = opcode x"
    using x'(2) by (metis opcode_mask_instruction)
  then show ?thesis
    using x' by (auto simp: mask_instruction_other)
qed

lemma TryFold_fst_frame:
  assumes "mask_data_operands m' = mask_data_operands m" "deref m' inst = deref m inst"
    "TryFoldColectivePermuteOfSelect ndebug gm m inst = (Inr False, m1)"
  shows "TryFoldColectivePermuteOfSelect ndebug gm m' inst = (Inr False, m')"
  using assms(3) unfolding TryFoldColectivePermuteOfSelect_def assms(2)
    MatchFoldableSelect_frame [OF assms(1)] ReplaceOperandWith_def Let_def
  by (auto split: option.splits if_splits sum.splits prod.splits)

lemma settled_frame:
  "mask_data_operands m' = mask_data_operands m \<Longrightarrow> deref m' inst = deref m inst \<Longrightarrow>
   settled ndebug gm m inst \<Longrightarrow> settled ndebug gm m' inst"
  unfolding settled_def by (rule TryFold_fst_frame)

lemma TryFold_False_same:
  "TryFoldColectivePermuteOfSelect ndebug gm m inst = (Inr False, m') \<Longrightarrow> m' = m"
  using TryFold_cases by blast

lemma TryFold_preserves_settled:
  assumes "TryFoldColectivePermuteOfSelect ndebug gm m inst = (r, m')" "settled ndebug gm m j"
  shows "settled ndebug gm m' j"
proof (cases "j = inst")
  case True
  then have "r = Inr False" "m' = m"
    using assms by (auto simp: settled_def)
  then show ?thesis using assms(2) by simp
next
  case False
  then show ?thesis
    using assms TryFold_mask TryFold_deref_other settled_frame by metis
qed

lemma select_branches_not_selectD:
  assumes "select_branches_not_select m" "deref m p = Some sel" "opcode sel = kSelect"
    "operand sel k = Some t" "0 < k"
  shows "\<exists>x. deref m t = Some x \<and> opcode x \<noteq> kSelect"
proof -
  have "sel \<in> set (instructions m)"
    using assms(2) by (auto simp: deref_def split: if_splits)
  then have all: "\<forall>t \<in> set (tl (operands sel)).
      (case deref m t of None \<Rightarrow> False | Some x \<Rightarrow> opcode x \<noteq> kSelect)"
    using assms(1,3) by (auto simp: select_branches_not_select_def list_all_iff)
  have k: "k < length (operands sel)" "operands sel ! k = t"
    using assms(4) by (auto simp: operand_def split: if_splits)
  then have "tl (operands sel) ! (k - 1) = t" "k - 1 < length (tl (operands sel))"
    using assms(5) by (auto simp: nth_tl)
  then have "t \<in> set (tl (operands sel))"
    by (metis nth_mem)
  then show ?thesis
    using all by (auto split: option.splits)
qed

lemma select_branches_not_select_frame:
  assumes eq: "mask_data_operands m' = mask_data_operands m"
    and nsb: "select_branches_not_select m"
  shows "select_branches_not_select m'"
  unfolding select_branches_not_select_def list_all_iff
proof (intro ballI)
  fix sel' assume "sel' \<in> set (instructions m')"
  then obtain p where "p < length (instructions m')" "instructions m' ! p = sel'"
    by (auto simp: in_set_conv_nth)
  then have p: "deref m' p = Some sel'"
    by (simp add: deref_def)
  show "if opcode sel' = kSelect
        then \<forall>t \<in> set (tl (operands sel')).
               case deref m' t of None \<Rightarrow> False | Some x \<Rightarrow> opcode x \<noteq> kSelect
        else True"
  proof (cases "opcode sel' = kSelect")
    case False
    then show ?thesis by simp
  next
    case True
    from mask_deref_opcode [OF eq [symmetric] p] True
    have sel: "deref m p = Some sel'"
      by auto
    have "case deref m' t of None \<Rightarrow> False | Some x \<Rightarrow> opcode x \<noteq> kSelect"
      if tin: "t \<in> set (tl (operands sel'))" for t
    proof -
      obtain j where j: "j < length (tl (operands sel'))" "tl (operands sel') ! j = t"
        using tin unfolding in_set_conv_nth by blast
      then have "operand sel' (Suc j) = Some t"
        by (auto simp: operand_def nth_tl)
      from select_branches_not_selectD [OF nsb sel True this]
      obtain x where "deref m t = Some x" "opcode x \<noteq> kSelect"
        by auto
      with mask_deref_opcode [OF eq, of t x] show ?thesis
        by auto
    qed
    with True show ?thesis by simp
  qed
qed

lemma fold_then_settled:
  assumes fold: "TryFoldColectivePermuteOfSelect ndebug gm m inst = (Inr True, m')"
    and nsb: "select_branches_not_select m"
  shows "settled ndebug gm m' inst"
proof -
  from TryFold_cases [OF fold] obtain cp sel sm pv new where
    cp: "deref m inst = Some cp" "opcode cp = kCollectivePermute" "operand cp 0 = Some sel"
    and mt: "MatchFoldableSelect m sel = Inr (Some sm)"
    and new: "new = (if pv then true_operand sm else false_operand sm)"
    and m': "m' = m\<lparr>instructions := (instructions m)[inst := cp\<lparr>operands := (operands cp)[0 := new]\<rparr>]\<rparr>"
    by auto
  from MatchFoldableSelect_SomeD [OF mt] obtain s where
    s: "deref m sel = Some s" "opcode s = kSelect"
       "operand s 1 = Some (true_operand sm)" "operand s 2 = Some (false_operand sm)"
    by auto
  have "\<exists>k. 0 < k \<and> operand s k = Some new"
    using s new by (cases pv) (auto intro: exI [of _ 1] exI [of _ 2])
  then obtain x where x: "deref m new = Some x" "opcode x \<noteq> kSelect"
    using select_branches_not_selectD [OF nsb s(1,2)] by blast
  have eq: "mask_data_operands m' = mask_data_operands m"
    using fold by (rule TryFold_mask)
  from mask_deref_opcode [OF eq x(1)] x(2)
  obtain x' where x': "deref m' new = Some x'" "opcode x' \<noteq> kSelect"
    by auto
  have no: "MatchFoldableSelect m' new = Inr None"
    using x' by (simp add: MatchFoldableSelect_def)
  have d: "deref m' inst = Some (cp\<lparr>operands := (operands cp)[0 := new]\<rparr>)"
    using cp(1) by (auto simp: m' deref_def split: if_splits)
  have o: "operand (cp\<lparr>operands := (operands cp)[0 := new]\<rparr>) 0 = Some new"
    using cp(3) by (auto simp: operand_def split: if_splits)
  show ?thesis
    unfolding settled_def TryFoldColectivePermuteOfSelect_def
    by (simp add: d o no cp(2))
qed

lemma run_instructions_settled:
  "\<forall>i \<in> set insts. settled ndebug gm m i \<Longrightarrow>
   run_instructions ndebug gm changed m insts = (Inr changed, m)"
  by (induction insts) (auto simp: settled_def)

lemma run_instructions_mask:
  "run_instructions ndebug gm changed m insts = (r, m') \<Longrightarrow>
   mask_data_operands m' = mask_data_operands m"
proof (induction insts arbitrary: changed m)
  case Nil
  then show ?case by simp
next
  case (Cons i insts)
  obtain r1 m1 where t: "TryFoldColectivePermuteOfSelect ndebug gm m i = (r1, m1)"
    by (cases "TryFoldColectivePermuteOfSelect ndebug gm m i")
  show ?case
  proof (cases r1)
    case (Inl e)
    with Cons.prems t TryFold_mask [OF t] show ?thesis by simp
  next
    case (Inr lc)
    with Cons.prems t have "run_instructions ndebug gm (changed \<or> lc) m1 insts = (r, m')"
      by simp
    from Cons.IH [OF this] TryFold_mask [OF t] show ?thesis by simp
  qed
qed

lemma run_instructions_inv:
  "run_instructions ndebug gm changed m insts = (Inr changed', m') \<Longrightarrow>
   select_branches_not_select m \<Longrightarrow>
   (\<forall>j. settled ndebug gm m j \<longrightarrow> settled ndebug gm m' j) \<and>
   (\<forall>i \<in> set insts. settled ndebug gm m' i)"
proof (induction insts arbitrary: changed m)
  case Nil
  then show ?case by simp
next
  case (Cons i insts)
  obtain r1 m1 where t: "TryFoldColectivePermuteOfSelect ndebug gm m i = (r1, m1)"
    by (cases "TryFoldColectivePermuteOfSelect ndebug gm m i")
  with Cons.prems(1) obtain lc where r1: "r1 = Inr lc"
    by (cases r1) auto
  with Cons.prems(1) t have run: "run_instructions ndebug gm (changed \<or> lc) m1 insts = (Inr changed', m')"
    by simp
  have nsb1: "select_branches_not_select m1"
    using TryFold_mask [OF t] Cons.prems(2) by (rule select_branches_not_select_frame)
  from Cons.IH [OF run nsb1]
  have ih1: "\<And>j. settled ndebug gm m1 j \<Longrightarrow> settled ndebug gm m' j"
    and ih2: "\<forall>i \<in> set insts. settled ndebug gm m' i"
    by auto
  have "settled ndebug gm m1 i"
  proof (cases lc)
    case True
    with t r1 Cons.prems(2) show ?thesis by (auto intro: fold_then_settled)
  next
    case False
    with t r1 TryFold_False_same [of ndebug gm m i m1] show ?thesis
      by (auto simp: settled_def)
  qed
  then have "settled ndebug gm m' i" by (rule ih1)
  moreover have "settled ndebug gm m' j" if "settled ndebug gm m j" for j
    using TryFold_preserves_settled [OF t that] by (rule ih1)
  ultimately show ?case using ih2 by simp
qed

lemma run_instructions_append:
  "run_instructions ndebug gm changed m (xs @ ys) =
     (case run_instructions ndebug gm changed m xs of
        (Inl e, m') \<Rightarrow> (Inl e, m')
      | (Inr changed', m') \<Rightarrow> run_instructions ndebug gm changed' m' ys)"
  by (induction xs arbitrary: changed m) (auto split: prod.splits sum.splits)

lemma run_computations_concat:
  "run_computations ndebug gm changed m cs = run_instructions ndebug gm changed m (concat cs)"
  by (induction cs arbitrary: changed m)
     (auto simp: run_instructions_append split: prod.splits sum.splits)

lemma Run_concat:
  "Run ndebug gm m = run_instructions ndebug gm False m (concat (computations m))"
  by (simp add: Run_def run_computations_concat)

lemma MatchFoldableSelect_compare:
  assumes "deref m s = Some sel" "opcode sel = kSelect" "operands sel = [p, T, F]"
    and "deref m p = Some cmp \<or>
       (\<exists>bc q. deref m p = Some bc \<and> opcode bc = kBroadcast \<and> operands bc = [q] \<and>
          deref m q = Some cmp)"
      "opcode cmp = kCompare" "operands cmp = [i, c]"
    and "deref m i = Some id_op"
      "opcode id_op = kReplicaId \<and> mode = kCrossReplica \<or>
       opcode id_op = kPartitionId \<and> mode = kCrossPartition"
    and "deref m c = Some constant_op" "opcode constant_op = kConstant"
      "GetFirstInteger (literal constant_op) = Some c0"
  shows "MatchFoldableSelect m s =
           Inr (Some \<lparr>cmp_direction = direction cmp, constant_id = c0, collective_mode = mode,
                      true_operand = T, false_operand = F\<rparr>)"
  using assms unfolding MatchFoldableSelect_def
  by (auto simp: operand_def)

lemma not_permute_settled:
  "deref m j = Some x \<Longrightarrow> opcode x \<noteq> kCollectivePermute \<Longrightarrow> settled ndebug gm m j"
  by (simp add: settled_def TryFoldColectivePermuteOfSelect_def)

lemma TryFold_fold:
  assumes "deref m inst = Some cp" "opcode cp = kCollectivePermute" "operand cp 0 = Some s"
    and "MatchFoldableSelect m s = Inr (Some sm)"
    and "gm (channel_id cp \<noteq> None) None = Inr (collective_mode sm)"
    and "StaticallyEvaluatePredicateForAllSourceIDs ndebug sm (source_target_pairs cp) =
           Inr (Some pv)"
  shows "TryFoldColectivePermuteOfSelect ndebug gm m inst =
           (Inr True, m\<lparr>instructions := (instructions m)[inst := cp\<lparr>operands :=
              (operands cp)[0 := (if pv then true_operand sm else false_operand sm)]\<rparr>]\<rparr>)"
  using assms
  unfolding TryFoldColectivePermuteOfSelect_def ReplaceOperandWith_def Let_def
  by (auto simp: operand_def split: if_splits)

lemma run_single_rewrite:
  assumes order: "concat (computations m) = pre @ inst # post"
    and others: "\<forall>j \<in> set (pre @ post). \<exists>x. deref m j = Some x \<and> opcode x \<noteq> kCollectivePermute"
    and cp: "deref m inst = Some cp" "opcode cp = kCollectivePermute"
    and step: "TryFoldColectivePermuteOfSelect ndebug gm m inst = (Inr b, m')"
  shows "Run ndebug gm m = (Inr b, m')"
proof -
  have pre: "\<forall>j \<in> set pre. settled ndebug gm m j"
    using others by (auto intro: not_permute_settled)
  have "\<forall>j \<in> set post. settled ndebug gm m' j"
  proof
    fix j assume j: "j \<in> set post"
    then obtain x where x: "deref m j = Some x" "opcode x \<noteq> kCollectivePermute"
      using others by auto
    then have "j \<noteq> inst" using cp by auto
    then have "deref m' j = Some x"
      using TryFold_deref_other [OF step] x by simp
    then show "settled ndebug gm m' j"
      using x(2) by (rule not_permute_settled)
  qed
  then show ?thesis
    using pre step
    by (simp add: Run_concat order run_instructions_append run_instructions_settled)
qed

lemma check_remaining_cong:
  "(\<And>p. predicate sm p = predicate sm' p) \<Longrightarrow>
   check_remaining sm c ps = check_remaining sm' c ps"
  by (induction ps) auto

lemma evaluator_all_true:
  assumes "pairs \<noteq> []" "\<forall>p \<in> set pairs. predicate sm p"
  shows "StaticallyEvaluatePredicateForAllSourceIDs True sm pairs = Inr (Some True)"
proof -
  obtain p0 rest where pairs: "pairs = p0 # rest"
    using assms(1) by (cases pairs) auto
  have "check_remaining sm (predicate sm p0) rest = Some True"
    unfolding check_remaining_Some using assms(2) pairs by auto
  then show ?thesis
    by (simp add: StaticallyEvaluatePredicateForAllSourceIDs_def pairs)
qed

lemma list_update_0_eq:
  "xs[0 := a] = ys[0 := a] \<Longrightarrow> xs = ys[0 := xs ! 0]"
  by (cases xs; cases ys) auto

lemma mask_instruction_eqD:
  assumes "mask_instruction x' = mask_instruction x"
  shows "\<exists>new. x' = (if opcode x = kCollectivePermute
                      then x\<lparr>operands := (operands x)[0 := new]\<rparr> else x)"
proof (cases "opcode x = kCollectivePermute")
  case False
  then show ?thesis
    using assms by (metis mask_instruction_other opcode_mask_instruction)
next
  case True
  then have o': "opcode x' = kCollectivePermute"
    using assms by (metis opcode_mask_instruction)
  have eq: "x'\<lparr>operands := (operands x')[0 := 0]\<rparr> = x\<lparr>operands := (operands x)[0 := 0]\<rparr>"
    using assms True o' by (simp add: mask_instruction_def)
  then have "(operands x')[0 := 0] = (operands x)[0 := 0]"
    by (metis HloInstruction.select_convs(2) HloInstruction.surjective HloInstruction.update_convs(2))
  then have ops: "operands x' = (operands x)[0 := operands x' ! 0]"
    by (rule list_update_0_eq)
  have "x' = x\<lparr>operands := operands x'\<rparr>"
    using eq by (cases x; cases x') simp
  with ops have "x' = x\<lparr>operands := (operands x)[0 := operands x' ! 0]\<rparr>"
    by simp
  then show ?thesis
    using True by auto
qed

lemma mask_deref:
  assumes "mask_data_operands m' = mask_data_operands m" "deref m p = Some x"
  shows "\<exists>new. deref m' p = Some (if opcode x = kCollectivePermute
                      then x\<lparr>operands := (operands x)[0 := new]\<rparr> else x)"
proof -
  have "map_option mask_instruction (deref m' p) = map_option mask_instruction (deref m p)"
    using assms(1) by (metis deref_mask)
  then obtain x' where x': "deref m' p = Some x'" "mask_instruction x' = mask_instruction x"
    using assms(2) by auto
  from mask_instruction_eqD [OF x'(2)] x'(1) show ?thesis
    by auto
qed

lemma users_update:
  assumes cp: "deref m inst = Some cp" "operand cp 0 = Some s"
    and p: "p \<noteq> s" "p \<noteq> new"
  shows "users (m\<lparr>instructions := (instructions m)[inst := cp\<lparr>operands := (operands cp)[0 := new]\<rparr>]\<rparr>) p
         = users m p"
proof -
  have i: "inst < length (instructions m)" "instructions m ! inst = cp"
    using cp(1) by (auto simp: deref_def split: if_splits)
  obtain rest where ops: "operands cp = s # rest"
    using cp(2) by (cases "operands cp") (auto simp: operand_def)
  have "(p \<in> set (operands ((instructions m)[inst := cp\<lparr>operands := (operands cp)[0 := new]\<rparr>] ! q)))
        = (p \<in> set (operands (instructions m ! q)))" if "q < length (instructions m)" for q
    using that i p ops by (cases "q = inst") auto
  then show ?thesis
    unfolding users_def by (auto intro: filter_cong)
qed

lemma users_new:
  assumes cp: "deref m inst = Some cp" "operand cp 0 = Some s"
  shows "inst \<in> set (users (m\<lparr>instructions := (instructions m)[inst := cp\<lparr>operands := (operands cp)[0 := new]\<rparr>]\<rparr>) new)"
proof -
  have i: "inst < length (instructions m)"
    using cp(1) by (auto simp: deref_def split: if_splits)
  obtain rest where ops: "operands cp = s # rest"
    using cp(2) by (cases "operands cp") (auto simp: operand_def)
  show ?thesis
    using i ops by (simp add: users_def)
qed

section \<open>Claims\<close>

text \<open>
  C1. On a record whose direction is equal or not-equal (the condition the evaluator
  asserts), the evaluator returns the boolean \<open>b\<close> exactly when the routing table is
  non-empty and the specification's point-evaluation yields \<open>b\<close> at every source of the
  table; it returns no-fold exactly when the table is empty or two sources disagree; and
  it never fails.
\<close>

theorem evaluator_uniform:
  assumes dir: "cmp_direction sm = kEq \<or> cmp_direction sm = kNe"
  shows "(StaticallyEvaluatePredicateForAllSourceIDs ndebug sm pairs = Inr (Some b) \<longleftrightarrow>
            pairs \<noteq> [] \<and> (\<forall>p \<in> set pairs. spec_point_evaluation sm (fst p) = b)) \<and>
         (StaticallyEvaluatePredicateForAllSourceIDs ndebug sm pairs = Inr None \<longleftrightarrow>
            pairs = [] \<or>
            (\<exists>p \<in> set pairs. \<exists>q \<in> set pairs.
               spec_point_evaluation sm (fst p) \<noteq> spec_point_evaluation sm (fst q))) \<and>
         (\<forall>e. StaticallyEvaluatePredicateForAllSourceIDs ndebug sm pairs \<noteq> Inl e)"
proof (cases pairs)
  case Nil
  then show ?thesis
    by (simp add: StaticallyEvaluatePredicateForAllSourceIDs_def)
next
  case (Cons p0 rest)
  have pe: "\<And>p. predicate sm p = spec_point_evaluation sm (fst p)"
    using dir by (rule predicate_spec_point_evaluation)
  have ev: "StaticallyEvaluatePredicateForAllSourceIDs ndebug sm pairs =
              Inr (check_remaining sm (predicate sm p0) rest)"
    using dir Cons by (auto simp: StaticallyEvaluatePredicateForAllSourceIDs_def)
  have some: "check_remaining sm (predicate sm p0) rest = Some b \<longleftrightarrow>
                (\<forall>p \<in> set pairs. spec_point_evaluation sm (fst p) = b)"
    unfolding check_remaining_Some Cons by (auto simp: pe)
  have none: "check_remaining sm (predicate sm p0) rest = None \<longleftrightarrow>
                (\<exists>p \<in> set pairs. \<exists>q \<in> set pairs.
                   spec_point_evaluation sm (fst p) \<noteq> spec_point_evaluation sm (fst q))"
    unfolding check_remaining_None Cons by (auto simp: pe)
  show ?thesis
    unfolding ev using some none Cons by simp
qed

theorem evaluator_uniform_witness:
  "cmp_direction example_record = kNe \<and>
   StaticallyEvaluatePredicateForAllSourceIDs False example_record [(1, 0), (2, 1), (3, 2)] =
     Inr (Some True) \<and>
   StaticallyEvaluatePredicateForAllSourceIDs False example_record [(0, 1), (1, 2)] = Inr None"
proof -
  have d: "cmp_direction example_record = kEq \<or> cmp_direction example_record = kNe"
    by (simp add: example_record_def)
  have "StaticallyEvaluatePredicateForAllSourceIDs False example_record
          [(1, 0), (2, 1), (3, 2)] = Inr (Some True)"
    using evaluator_uniform [OF d, of False "[(1, 0), (2, 1), (3, 2)]" True]
    by (simp add: spec_point_evaluation_def example_record_def)
  moreover have "\<exists>p \<in> set [(0, 1), (1, 2)]. \<exists>q \<in> set [(0, 1), (1, 2)].
      spec_point_evaluation example_record (fst p) \<noteq>
      spec_point_evaluation example_record (fst (q :: SourceTargetPair))"
    by (rule bexI [of _ "(0, 1)"], rule bexI [of _ "(1, 2)"])
       (simp_all add: spec_point_evaluation_def example_record_def)
  then have "StaticallyEvaluatePredicateForAllSourceIDs False example_record
          [(0, 1), (1, 2)] = Inr None"
    using evaluator_uniform [OF d, of False "[(0, 1), (1, 2)]" True] by blast
  ultimately show ?thesis
    by (simp add: example_record_def)
qed

text \<open>
  C2 (as amended). On a module in which no select has a select as its true or false
  operand, a run that succeeds leaves a module on which a second run changes nothing and
  returns \<open>changed = false\<close>.
\<close>

theorem Run_idempotent:
  assumes "Run ndebug gm m = (Inr changed, m')" "select_branches_not_select m"
  shows "Run ndebug gm m' = (Inr False, m')"
proof -
  have run: "run_instructions ndebug gm False m (concat (computations m)) = (Inr changed, m')"
    using assms(1) by (simp add: Run_concat)
  have "computations m' = computations m"
    using run_instructions_mask [OF run] by (rule mask_computations)
  moreover have "\<forall>i \<in> set (concat (computations m)). settled ndebug gm m' i"
    using run_instructions_inv [OF run assms(2)] by simp
  ultimately show ?thesis
    by (simp add: Run_concat run_instructions_settled)
qed

theorem Run_idempotent_witness:
  "select_branches_not_select (permute_module kPartitionId kNe 5 (Some 1) [(1, 0), (2, 1), (3, 2)]) \<and>
   Run True channel_group_mode (permute_module kPartitionId kNe 5 (Some 1) [(1, 0), (2, 1), (3, 2)]) =
     (Inr True, permute_module kPartitionId kNe 3 (Some 1) [(1, 0), (2, 1), (3, 2)]) \<and>
   Run True channel_group_mode (permute_module kPartitionId kNe 3 (Some 1) [(1, 0), (2, 1), (3, 2)]) =
     (Inr False, permute_module kPartitionId kNe 3 (Some 1) [(1, 0), (2, 1), (3, 2)])"
proof -
  have nsb: "select_branches_not_select
      (permute_module kPartitionId kNe 5 (Some 1) [(1, 0), (2, 1), (3, 2)])"
    by code_simp
  have run: "Run True channel_group_mode
      (permute_module kPartitionId kNe 5 (Some 1) [(1, 0), (2, 1), (3, 2)]) =
      (Inr True, permute_module kPartitionId kNe 3 (Some 1) [(1, 0), (2, 1), (3, 2)])"
    by code_simp
  from Run_idempotent [OF run nsb] nsb run show ?thesis
    by simp
qed

text \<open>
  C2 as stated fails: with a select nested in the true operand of the select, the first
  run forwards the inner select, and the second run folds again and returns
  \<open>changed = true\<close>.
\<close>

theorem Run_not_idempotent:
  "Run True channel_group_mode (nested_select_module 7) = (Inr True, nested_select_module 5) \<and>
   Run True channel_group_mode (nested_select_module 5) = (Inr True, nested_select_module 3) \<and>
   nested_select_module 3 \<noteq> nested_select_module 5"
  by code_simp

text \<open>
  C3. A collective-permute whose data operand is a select on \<open>partition-id != 0\<close> (the
  compare direct or under one broadcast) with true operand \<open>T\<close> and false operand
  \<open>F\<close>, whose routing table is
  \<open>[(1,0),(2,1),(3,2)]\<close> and whose own group mode is cross-partition: the pass replaces
  its data operand by \<open>T\<close>, and on a module with no other collective-permute the run
  returns \<open>changed = true\<close> with exactly this one operand replaced.
\<close>

theorem uniform_true_fold:
  assumes cp: "deref m inst = Some cp" "opcode cp = kCollectivePermute" "operands cp = [s]"
      "source_target_pairs cp = [(1, 0), (2, 1), (3, 2)]"
    and mode: "gm (channel_id cp \<noteq> None) None = Inr kCrossPartition"
    and sel: "deref m s = Some sel" "opcode sel = kSelect" "operands sel = [p, T, F]"
    and cmp: "deref m p = Some cmp \<or>
       (\<exists>bc q. deref m p = Some bc \<and> opcode bc = kBroadcast \<and> operands bc = [q] \<and>
          deref m q = Some cmp)"
      "opcode cmp = kCompare" "direction cmp = kNe" "operands cmp = [i, c]"
    and idop: "deref m i = Some id_op" "opcode id_op = kPartitionId"
    and const: "deref m c = Some constant_op" "opcode constant_op = kConstant"
      "GetFirstInteger (literal constant_op) = Some 0"
    and order: "concat (computations m) = pre @ inst # post"
    and others: "\<forall>j \<in> set (pre @ post). \<exists>x. deref m j = Some x \<and> opcode x \<noteq> kCollectivePermute"
  shows "TryFoldColectivePermuteOfSelect ndebug gm m inst =
           (Inr True, m\<lparr>instructions := (instructions m)[inst := cp\<lparr>operands := [T]\<rparr>]\<rparr>) \<and>
         Run ndebug gm m =
           (Inr True, m\<lparr>instructions := (instructions m)[inst := cp\<lparr>operands := [T]\<rparr>]\<rparr>)"
proof -
  let ?sm = "\<lparr>cmp_direction = kNe, constant_id = 0, collective_mode = kCrossPartition,
               true_operand = T, false_operand = F\<rparr>"
  have mt: "MatchFoldableSelect m s = Inr (Some ?sm)"
    using MatchFoldableSelect_compare [OF sel cmp(1,2,4) idop(1) _ const, of kCrossPartition]
      idop(2) cmp(3) by simp
  have ev: "StaticallyEvaluatePredicateForAllSourceIDs ndebug ?sm (source_target_pairs cp) =
              Inr (Some True)"
    by (simp add: cp(4) StaticallyEvaluatePredicateForAllSourceIDs_def predicate_def)
  have op: "operand cp 0 = Some s"
    by (simp add: operand_def cp(3))
  have step: "TryFoldColectivePermuteOfSelect ndebug gm m inst =
           (Inr True, m\<lparr>instructions := (instructions m)[inst := cp\<lparr>operands := [T]\<rparr>]\<rparr>)"
    using TryFold_fold [OF cp(1,2) op mt _ ev] mode by (simp add: cp(3))
  from run_single_rewrite [OF order others cp(1,2) step] step show ?thesis
    by simp
qed

theorem uniform_true_fold_witness:
  "TryFoldColectivePermuteOfSelect False channel_group_mode
     (permute_module kPartitionId kNe 5 (Some 1) [(1, 0), (2, 1), (3, 2)]) 6 =
     (Inr True, permute_module kPartitionId kNe 3 (Some 1) [(1, 0), (2, 1), (3, 2)]) \<and>
   Run False channel_group_mode
     (permute_module kPartitionId kNe 5 (Some 1) [(1, 0), (2, 1), (3, 2)]) =
     (Inr True, permute_module kPartitionId kNe 3 (Some 1) [(1, 0), (2, 1), (3, 2)])"
  using uniform_true_fold [where m = "permute_module kPartitionId kNe 5 (Some 1) [(1, 0), (2, 1), (3, 2)]"
      and inst = 6 and cp = "collective_permute_instr 5 (Some 1) [(1, 0), (2, 1), (3, 2)]"
      and s = 5 and sel = "instr kSelect [2, 3, 4]" and p = 2 and T = 3 and F = 4
      and cmp = "compare_instr kNe 0 1" and i = 0 and c = 1
      and id_op = "instr kPartitionId []" and constant_op = "constant_instr 0"
      and pre = "[0, 1, 2, 3, 4, 5]" and post = "[]" and gm = channel_group_mode
      and ndebug = False]
  by (simp add: example_defs)

text \<open>
  C4. The matcher does not look at the direction of the compare: on a select whose
  predicate is \<open>partition-id < 0\<close> it yields a record with direction \<open>kLt\<close>. With
  \<open>NDEBUG\<close> the run then forwards the true operand for the source 1, although
  \<open>1 < 0\<close> is false; without \<open>NDEBUG\<close> the assertion of the evaluator fails.
\<close>

theorem matcher_accepts_less_than:
  "MatchFoldableSelect (permute_module kPartitionId kLt 5 (Some 1) [(1, 0)]) 5 =
     Inr (Some \<lparr>cmp_direction = kLt, constant_id = 0, collective_mode = kCrossPartition,
                true_operand = 3, false_operand = 4\<rparr>) \<and>
   Run True channel_group_mode (permute_module kPartitionId kLt 5 (Some 1) [(1, 0)]) =
     (Inr True, permute_module kPartitionId kLt 3 (Some 1) [(1, 0)]) \<and>
   Run False channel_group_mode (permute_module kPartitionId kLt 5 (Some 1) [(1, 0)]) =
     (Inl AssertionFailure, permute_module kPartitionId kLt 5 (Some 1) [(1, 0)])"
  by code_simp

text \<open>
  C5. A compare with any direction other than \<open>kEq\<close>, direct or under one broadcast,
  is matched, with its direction in the record; the evaluator's point-evaluation of such a record is
  \<open>source-id != constant\<close>, the evaluator built with \<open>NDEBUG\<close> returns what it returns
  for the direction \<open>kNe\<close>, and the pass folds to the true operand when every source
  differs from the constant. Only in a build without \<open>NDEBUG\<close>, and only for a
  direction that is not \<open>kNe\<close>, the assertion stops the pass.
\<close>

theorem other_direction_as_not_equal:
  assumes cp: "deref m inst = Some cp" "opcode cp = kCollectivePermute" "operands cp = [s]"
    and mode: "gm (channel_id cp \<noteq> None) None = Inr mode"
    and sel: "deref m s = Some sel" "opcode sel = kSelect" "operands sel = [p, T, F]"
    and cmp: "deref m p = Some cmp \<or>
       (\<exists>bc q. deref m p = Some bc \<and> opcode bc = kBroadcast \<and> operands bc = [q] \<and>
          deref m q = Some cmp)"
      "opcode cmp = kCompare" "operands cmp = [i, c]"
    and dir: "direction cmp \<noteq> kEq"
    and idop: "deref m i = Some id_op"
      "opcode id_op = kReplicaId \<and> mode = kCrossReplica \<or>
       opcode id_op = kPartitionId \<and> mode = kCrossPartition"
    and const: "deref m c = Some constant_op" "opcode constant_op = kConstant"
      "GetFirstInteger (literal constant_op) = Some c0"
    and sm: "sm = \<lparr>cmp_direction = direction cmp, constant_id = c0, collective_mode = mode,
                   true_operand = T, false_operand = F\<rparr>"
  shows "MatchFoldableSelect m s = Inr (Some sm) \<and>
         (\<forall>src tgt. predicate sm (src, tgt) \<longleftrightarrow> src \<noteq> c0) \<and>
         (\<forall>pairs. StaticallyEvaluatePredicateForAllSourceIDs True sm pairs =
                  StaticallyEvaluatePredicateForAllSourceIDs True (sm\<lparr>cmp_direction := kNe\<rparr>) pairs) \<and>
         (source_target_pairs cp \<noteq> [] \<and> (\<forall>pr \<in> set (source_target_pairs cp). fst pr \<noteq> c0) \<longrightarrow>
            TryFoldColectivePermuteOfSelect True gm m inst =
              (Inr True, m\<lparr>instructions := (instructions m)[inst := cp\<lparr>operands := [T]\<rparr>]\<rparr>)) \<and>
         (direction cmp \<noteq> kNe \<and> source_target_pairs cp \<noteq> [] \<longrightarrow>
            TryFoldColectivePermuteOfSelect False gm m inst = (Inl AssertionFailure, m))"
proof -
  have mt: "MatchFoldableSelect m s = Inr (Some sm)"
    unfolding sm by (rule MatchFoldableSelect_compare [OF sel cmp idop const])
  have pr: "predicate sm pr \<longleftrightarrow> fst pr \<noteq> c0" for pr
    using dir by (simp add: predicate_def sm)
  have pr': "predicate sm pr = predicate (sm\<lparr>cmp_direction := kNe\<rparr>) pr" for pr
    using dir by (simp add: predicate_def sm)
  have ev: "StaticallyEvaluatePredicateForAllSourceIDs True sm pairs =
            StaticallyEvaluatePredicateForAllSourceIDs True (sm\<lparr>cmp_direction := kNe\<rparr>) pairs"
    for pairs
    using check_remaining_cong [of sm "sm\<lparr>cmp_direction := kNe\<rparr>", OF pr'] pr'
    by (simp add: StaticallyEvaluatePredicateForAllSourceIDs_def split: list.splits)
  have op: "operand cp 0 = Some s"
    by (simp add: operand_def cp(3))
  have md: "gm (channel_id cp \<noteq> None) None = Inr (collective_mode sm)"
    using mode by (simp add: sm)
  have fold: "TryFoldColectivePermuteOfSelect True gm m inst =
              (Inr True, m\<lparr>instructions := (instructions m)[inst := cp\<lparr>operands := [T]\<rparr>]\<rparr>)"
    if "source_target_pairs cp \<noteq> [] \<and> (\<forall>pr \<in> set (source_target_pairs cp). fst pr \<noteq> c0)"
  proof -
    have "StaticallyEvaluatePredicateForAllSourceIDs True sm (source_target_pairs cp) =
            Inr (Some True)"
      using that by (intro evaluator_all_true) (auto simp: pr)
    from TryFold_fold [where gm = gm, OF cp(1,2) op mt md this] show ?thesis
      by (simp add: cp(3) sm)
  qed
  have dbg: "TryFoldColectivePermuteOfSelect False gm m inst = (Inl AssertionFailure, m)"
    if "direction cmp \<noteq> kNe \<and> source_target_pairs cp \<noteq> []"
  proof -
    have "StaticallyEvaluatePredicateForAllSourceIDs False sm (source_target_pairs cp) =
            Inl AssertionFailure"
      using that dir
      by (auto simp: StaticallyEvaluatePredicateForAllSourceIDs_def sm split: list.splits)
    then show ?thesis
      unfolding TryFoldColectivePermuteOfSelect_def using md
      by (simp add: cp(1,2) op mt)
  qed
  show ?thesis
    using mt pr ev fold dbg by auto
qed

theorem other_direction_as_not_equal_witness:
  "TryFoldColectivePermuteOfSelect True channel_group_mode
     (permute_module kPartitionId kGe 5 (Some 1) [(1, 0)]) 6 =
     (Inr True, permute_module kPartitionId kGe 3 (Some 1) [(1, 0)]) \<and>
   TryFoldColectivePermuteOfSelect False channel_group_mode
     (permute_module kPartitionId kGe 5 (Some 1) [(1, 0)]) 6 =
     (Inl AssertionFailure, permute_module kPartitionId kGe 5 (Some 1) [(1, 0)])"
  using other_direction_as_not_equal [where m = "permute_module kPartitionId kGe 5 (Some 1) [(1, 0)]"
      and inst = 6 and cp = "collective_permute_instr 5 (Some 1) [(1, 0)]"
      and s = 5 and sel = "instr kSelect [2, 3, 4]" and p = 2 and T = 3 and F = 4
      and cmp = "compare_instr kGe 0 1" and i = 0 and c = 1 and ?c0.0 = 0
      and id_op = "instr kPartitionId []" and constant_op = "constant_instr 0"
      and gm = channel_group_mode and mode = kCrossPartition
      and sm = "\<lparr>cmp_direction = kGe, constant_id = 0, collective_mode = kCrossPartition,
                 true_operand = 3, false_operand = 4\<rparr>"]
  by (simp add: example_defs)

text \<open>
  C6. When the run reaches a matched candidate whose own group mode cannot be derived,
  the pass returns that error at once: the module it leaves is the module as it was when
  the candidate was reached, with the rewrites made before it and none after.
\<close>

theorem group_mode_error_aborts:
  assumes order: "concat (computations m) = pre @ inst # post"
    and before: "run_instructions ndebug gm False m pre = (Inr changed, m1)"
    and cp: "deref m1 inst = Some cp" "opcode cp = kCollectivePermute" "operand cp 0 = Some s"
    and mt: "MatchFoldableSelect m1 s = Inr (Some sm)"
    and err: "gm (channel_id cp \<noteq> None) None = Inl st"
  shows "TryFoldColectivePermuteOfSelect ndebug gm m1 inst = (Inl (StatusError st), m1) \<and>
         Run ndebug gm m = (Inl (StatusError st), m1)"
proof -
  have step: "TryFoldColectivePermuteOfSelect ndebug gm m1 inst = (Inl (StatusError st), m1)"
    unfolding TryFoldColectivePermuteOfSelect_def using cp mt err by simp
  then show ?thesis
    using before by (simp add: Run_concat order run_instructions_append)
qed

theorem group_mode_error_aborts_witness:
  "Run True strict_group_mode (three_permutes_module 5 5 5) =
     (Inl (StatusError InvalidArgument), three_permutes_module 3 5 5)"
proof -
  have before: "run_instructions True strict_group_mode False (three_permutes_module 5 5 5)
      [0, 1, 2, 3, 4, 5, 6] = (Inr True, three_permutes_module 3 5 5)"
    by code_simp
  have mt: "MatchFoldableSelect (three_permutes_module 3 5 5) 5 = Inr (Some example_record)"
    by code_simp
  show ?thesis
    using group_mode_error_aborts [where m = "three_permutes_module 5 5 5"
      and pre = "[0, 1, 2, 3, 4, 5, 6]" and inst = 7 and post = "[8]"
      and ndebug = True and gm = strict_group_mode and changed = True
      and ?m1.0 = "three_permutes_module 3 5 5"
      and cp = "collective_permute_instr 5 None [(1, 0)]" and s = 5
      and sm = example_record and st = InvalidArgument, OF _ before _ _ _ mt]
    by (simp add: example_defs operand_def)
qed

text \<open>
  C7. A matched candidate whose own group mode differs from the group mode implied by
  the identity op of the predicate is a no-match: no rewrite, no error, and the loop goes
  on with the next instruction, the module and \<open>changed\<close> as they were.
\<close>

theorem group_mode_mismatch_no_match:
  assumes "deref m inst = Some cp" "opcode cp = kCollectivePermute" "operand cp 0 = Some s"
    and "MatchFoldableSelect m s = Inr (Some sm)"
    and "gm (channel_id cp \<noteq> None) None = Inr mode"
    and "mode \<noteq> collective_mode sm"
  shows "TryFoldColectivePermuteOfSelect ndebug gm m inst = (Inr False, m) \<and>
         run_instructions ndebug gm changed m (inst # rest) =
           run_instructions ndebug gm changed m rest"
proof -
  have "TryFoldColectivePermuteOfSelect ndebug gm m inst = (Inr False, m)"
    unfolding TryFoldColectivePermuteOfSelect_def using assms by simp
  then show ?thesis by simp
qed

theorem group_mode_mismatch_no_match_witness:
  "TryFoldColectivePermuteOfSelect False channel_group_mode
     (permute_module kReplicaId kEq 5 (Some 1) [(0, 1)]) 6 =
     (Inr False, permute_module kReplicaId kEq 5 (Some 1) [(0, 1)]) \<and>
   run_instructions False channel_group_mode False
     (permute_module kReplicaId kEq 5 (Some 1) [(0, 1)]) [6] =
     (Inr False, permute_module kReplicaId kEq 5 (Some 1) [(0, 1)])"
  using group_mode_mismatch_no_match [where m = "permute_module kReplicaId kEq 5 (Some 1) [(0, 1)]"
      and inst = 6 and cp = "collective_permute_instr 5 (Some 1) [(0, 1)]" and s = 5
      and sm = "\<lparr>cmp_direction = kEq, constant_id = 0, collective_mode = kCrossReplica,
                 true_operand = 3, false_operand = 4\<rparr>"
      and gm = channel_group_mode and mode = kCrossPartition and ndebug = False
      and changed = False and rest = "[]"]
  by (simp add: example_defs MatchFoldableSelect_def operand_def)

text \<open>
  C8. A collective-permute with routing table \<open>[(0,1),(1,2)]\<close> over a select on
  \<open>partition-id == 0\<close> (the compare direct or under one broadcast), whose own group
  mode is derived without error: the sources
  disagree, the evaluator returns no-fold, the pass rewrites nothing, and on a module with
  no other collective-permute the run returns \<open>changed = false\<close> and the module as it
  was.
\<close>

theorem mixed_sources_no_fold:
  assumes cp: "deref m inst = Some cp" "opcode cp = kCollectivePermute" "operands cp = [s]"
      "source_target_pairs cp = [(0, 1), (1, 2)]"
    and mode: "gm (channel_id cp \<noteq> None) None = Inr mode"
    and sel: "deref m s = Some sel" "opcode sel = kSelect" "operands sel = [p, T, F]"
    and cmp: "deref m p = Some cmp \<or>
       (\<exists>bc q. deref m p = Some bc \<and> opcode bc = kBroadcast \<and> operands bc = [q] \<and>
          deref m q = Some cmp)"
      "opcode cmp = kCompare" "direction cmp = kEq" "operands cmp = [i, c]"
    and idop: "deref m i = Some id_op" "opcode id_op = kPartitionId"
    and const: "deref m c = Some constant_op" "opcode constant_op = kConstant"
      "GetFirstInteger (literal constant_op) = Some 0"
    and order: "concat (computations m) = pre @ inst # post"
    and others: "\<forall>j \<in> set (pre @ post). \<exists>x. deref m j = Some x \<and> opcode x \<noteq> kCollectivePermute"
  shows "StaticallyEvaluatePredicateForAllSourceIDs ndebug
           \<lparr>cmp_direction = kEq, constant_id = 0, collective_mode = kCrossPartition,
              true_operand = T, false_operand = F\<rparr> (source_target_pairs cp) = Inr None \<and>
         TryFoldColectivePermuteOfSelect ndebug gm m inst = (Inr False, m) \<and>
         Run ndebug gm m = (Inr False, m)"
proof -
  let ?sm = "\<lparr>cmp_direction = kEq, constant_id = 0, collective_mode = kCrossPartition,
               true_operand = T, false_operand = F\<rparr>"
  have mt: "MatchFoldableSelect m s = Inr (Some ?sm)"
    using MatchFoldableSelect_compare [OF sel cmp(1,2,4) idop(1) _ const, of kCrossPartition]
      idop(2) cmp(3) by simp
  have ev: "StaticallyEvaluatePredicateForAllSourceIDs ndebug ?sm (source_target_pairs cp) =
              Inr None"
    by (simp add: cp(4) StaticallyEvaluatePredicateForAllSourceIDs_def predicate_def)
  have op: "operand cp 0 = Some s"
    by (simp add: operand_def cp(3))
  have step: "TryFoldColectivePermuteOfSelect ndebug gm m inst = (Inr False, m)"
    unfolding TryFoldColectivePermuteOfSelect_def
    using mode by (simp add: cp(1,2) op mt ev)
  from run_single_rewrite [OF order others cp(1,2) step] step ev show ?thesis
    by simp
qed

theorem mixed_sources_no_fold_witness:
  "TryFoldColectivePermuteOfSelect False channel_group_mode
     (permute_module kPartitionId kEq 5 (Some 1) [(0, 1), (1, 2)]) 6 =
     (Inr False, permute_module kPartitionId kEq 5 (Some 1) [(0, 1), (1, 2)]) \<and>
   Run False channel_group_mode (permute_module kPartitionId kEq 5 (Some 1) [(0, 1), (1, 2)]) =
     (Inr False, permute_module kPartitionId kEq 5 (Some 1) [(0, 1), (1, 2)])"
  using mixed_sources_no_fold [where m = "permute_module kPartitionId kEq 5 (Some 1) [(0, 1), (1, 2)]"
      and inst = 6 and cp = "collective_permute_instr 5 (Some 1) [(0, 1), (1, 2)]"
      and s = 5 and sel = "instr kSelect [2, 3, 4]" and p = 2 and T = 3 and F = 4
      and cmp = "compare_instr kEq 0 1" and i = 0 and c = 1
      and id_op = "instr kPartitionId []" and constant_op = "constant_instr 0"
      and pre = "[0, 1, 2, 3, 4, 5]" and post = "[]" and gm = channel_group_mode
      and mode = kCrossPartition and ndebug = False]
  by (simp add: example_defs)

text \<open>
  C9. For a select whose predicate operand is \<open>pc0\<close>: a broadcast of a broadcast is not
  matched; a compare (direct or under one broadcast) whose operand 0 is a constant is
  not matched; both are no-match, not an error. Every match has a compare, direct or
  under exactly one broadcast, whose operand 0 is a replica-id or partition-id and whose
  operand 1 is a constant.
\<close>

theorem matcher_fixed_shape:
  assumes sel: "deref m s = Some sel" "opcode sel = kSelect" "operand sel 0 = Some p0"
    "deref m p0 = Some pc0"
  shows "(opcode pc0 = kBroadcast \<and> operand pc0 0 = Some p1 \<and> deref m p1 = Some pc1 \<and>
          opcode pc1 = kBroadcast \<longrightarrow> MatchFoldableSelect m s = Inr None) \<and>
         ((pc = pc0 \<and> opcode pc0 \<noteq> kBroadcast \<or>
           opcode pc0 = kBroadcast \<and> operand pc0 0 = Some p1 \<and> deref m p1 = Some pc) \<and>
          opcode pc = kCompare \<and> operands pc = [c, i] \<and>
          deref m c = Some constant_op \<and> opcode constant_op = kConstant \<longrightarrow>
          MatchFoldableSelect m s = Inr None) \<and>
         (\<forall>sm. MatchFoldableSelect m s = Inr (Some sm) \<longrightarrow>
            (\<exists>cmp id_ptr constant_ptr id_op const_op.
               (cmp = pc0 \<and> opcode pc0 \<noteq> kBroadcast \<or>
                opcode pc0 = kBroadcast \<and>
                (\<exists>q. operand pc0 0 = Some q \<and> deref m q = Some cmp)) \<and>
               opcode cmp = kCompare \<and>
               operand cmp 0 = Some id_ptr \<and> operand cmp 1 = Some constant_ptr \<and>
               deref m id_ptr = Some id_op \<and>
               (opcode id_op = kReplicaId \<or> opcode id_op = kPartitionId) \<and>
               deref m constant_ptr = Some const_op \<and> opcode const_op = kConstant))"
proof (intro conjI impI allI)
  assume "opcode pc0 = kBroadcast \<and> operand pc0 0 = Some p1 \<and> deref m p1 = Some pc1 \<and>
          opcode pc1 = kBroadcast"
  then show "MatchFoldableSelect m s = Inr None"
    using sel unfolding MatchFoldableSelect_def by simp
next
  assume a: "(pc = pc0 \<and> opcode pc0 \<noteq> kBroadcast \<or>
           opcode pc0 = kBroadcast \<and> operand pc0 0 = Some p1 \<and> deref m p1 = Some pc) \<and>
          opcode pc = kCompare \<and> operands pc = [c, i] \<and>
          deref m c = Some constant_op \<and> opcode constant_op = kConstant"
  then show "MatchFoldableSelect m s = Inr None"
    using sel unfolding MatchFoldableSelect_def by (auto simp: operand_def)
next
  fix sm assume "MatchFoldableSelect m s = Inr (Some sm)"
  from MatchFoldableSelect_SomeD [OF this] sel
  show "\<exists>cmp id_ptr constant_ptr id_op const_op.
               (cmp = pc0 \<and> opcode pc0 \<noteq> kBroadcast \<or>
                opcode pc0 = kBroadcast \<and>
                (\<exists>q. operand pc0 0 = Some q \<and> deref m q = Some cmp)) \<and>
               opcode cmp = kCompare \<and>
               operand cmp 0 = Some id_ptr \<and> operand cmp 1 = Some constant_ptr \<and>
               deref m id_ptr = Some id_op \<and>
               (opcode id_op = kReplicaId \<or> opcode id_op = kPartitionId) \<and>
               deref m constant_ptr = Some const_op \<and> opcode const_op = kConstant"
    by (auto split: if_splits)
qed

theorem matcher_fixed_shape_witness:
  "MatchFoldableSelect (broadcast_select_module 6) 7 = Inr None \<and>
   MatchFoldableSelect swapped_compare_module 5 = Inr None \<and>
   MatchFoldableSelect (broadcast_select_module 5) 7 =
     Inr (Some \<lparr>cmp_direction = kEq, constant_id = 0, collective_mode = kCrossPartition,
                true_operand = 3, false_operand = 4\<rparr>)"
proof -
  have "MatchFoldableSelect (broadcast_select_module 6) 7 = Inr None"
    using matcher_fixed_shape [where m = "broadcast_select_module 6" and s = 7
        and sel = "instr kSelect [6, 3, 4]" and ?p0.0 = 6 and ?pc0.0 = "instr kBroadcast [5]"
        and ?p1.0 = 5 and ?pc1.0 = "instr kBroadcast [2]"]
    by (simp add: example_defs operand_def)
  moreover have "MatchFoldableSelect swapped_compare_module 5 = Inr None"
    using matcher_fixed_shape [where m = swapped_compare_module and s = 5
        and sel = "instr kSelect [2, 3, 4]" and ?p0.0 = 2 and ?pc0.0 = "compare_instr kEq 1 0"
        and pc = "compare_instr kEq 1 0" and c = 1 and i = 0
        and constant_op = "constant_instr 0"]
    by (simp add: example_defs operand_def)
  moreover have "MatchFoldableSelect (broadcast_select_module 5) 7 =
     Inr (Some \<lparr>cmp_direction = kEq, constant_id = 0, collective_mode = kCrossPartition,
                true_operand = 3, false_operand = 4\<rparr>)"
    by code_simp
  ultimately show ?thesis by simp
qed

text \<open>
  C10. When the pass folds at an instruction, the module it leaves is the module it found
  with operand slot 0 of that collective-permute set to the true or the false operand of
  the matched select: the arena keeps its length, the computations are the same lists,
  every other instruction, the select among them, is as it was, the collective-permute
  is a user of its new operand, and the users of every instruction other than the select
  and the new operand are unchanged. Whatever a whole run returns, it leaves the same
  computations and the same instructions but for slot 0 of collective-permutes.
\<close>

theorem fold_changes_one_slot:
  "(TryFoldColectivePermuteOfSelect ndebug gm m inst = (Inr True, m') \<longrightarrow>
      (\<exists>cp s sm new.
         deref m inst = Some cp \<and> opcode cp = kCollectivePermute \<and>
         operand cp 0 = Some s \<and> MatchFoldableSelect m s = Inr (Some sm) \<and>
         (new = true_operand sm \<or> new = false_operand sm) \<and>
         m' = m\<lparr>instructions :=
                  (instructions m)[inst := cp\<lparr>operands := (operands cp)[0 := new]\<rparr>]\<rparr> \<and>
         length (instructions m') = length (instructions m) \<and>
         computations m' = computations m \<and>
         (\<forall>p. p \<noteq> inst \<longrightarrow> deref m' p = deref m p) \<and>
         deref m' s = deref m s \<and>
         inst \<in> set (users m' new) \<and>
         (\<forall>p. p \<noteq> s \<and> p \<noteq> new \<longrightarrow> users m' p = users m p))) \<and>
   (Run ndebug gm m = (r, m'') \<longrightarrow>
      length (instructions m'') = length (instructions m) \<and>
      computations m'' = computations m \<and>
      (\<forall>p x. deref m p = Some x \<longrightarrow>
         (\<exists>new. deref m'' p =
            Some (if opcode x = kCollectivePermute
                  then x\<lparr>operands := (operands x)[0 := new]\<rparr> else x))))"
proof (intro conjI impI)
  assume fold: "TryFoldColectivePermuteOfSelect ndebug gm m inst = (Inr True, m')"
  from TryFold_cases [OF fold] obtain cp s sm pv where
    cp: "deref m inst = Some cp" "opcode cp = kCollectivePermute" "operand cp 0 = Some s"
    and mt: "MatchFoldableSelect m s = Inr (Some sm)"
    and m0: "m' = m\<lparr>instructions := (instructions m)[inst := cp\<lparr>operands :=
               (operands cp)[0 := (if pv then true_operand sm else false_operand sm)]\<rparr>]\<rparr>"
    by auto
  define new where "new = (if pv then true_operand sm else false_operand sm)"
  have new: "new = true_operand sm \<or> new = false_operand sm"
    by (simp add: new_def)
  have m': "m' = m\<lparr>instructions := (instructions m)[inst := cp\<lparr>operands := (operands cp)[0 := new]\<rparr>]\<rparr>"
    using m0 by (simp add: new_def)
  from MatchFoldableSelect_SomeD [OF mt] obtain sel where
    sel: "deref m s = Some sel" "opcode sel = kSelect"
    by auto
  have ne: "s \<noteq> inst"
    using sel cp by auto
  have other: "deref m' p = deref m p" if "p \<noteq> inst" for p
    using TryFold_deref_other [OF fold that] .
  have len: "length (instructions m') = length (instructions m)"
    by (simp add: m')
  have comps: "computations m' = computations m"
    by (simp add: m')
  have u1: "inst \<in> set (users m' new)"
    unfolding m' using cp(1,3) by (rule users_new)
  have u2: "users m' p = users m p" if "p \<noteq> s \<and> p \<noteq> new" for p
    unfolding m' using cp(1,3) that by (intro users_update) auto
  show "\<exists>cp s sm new.
         deref m inst = Some cp \<and> opcode cp = kCollectivePermute \<and>
         operand cp 0 = Some s \<and> MatchFoldableSelect m s = Inr (Some sm) \<and>
         (new = true_operand sm \<or> new = false_operand sm) \<and>
         m' = m\<lparr>instructions :=
                  (instructions m)[inst := cp\<lparr>operands := (operands cp)[0 := new]\<rparr>]\<rparr> \<and>
         length (instructions m') = length (instructions m) \<and>
         computations m' = computations m \<and>
         (\<forall>p. p \<noteq> inst \<longrightarrow> deref m' p = deref m p) \<and>
         deref m' s = deref m s \<and>
         inst \<in> set (users m' new) \<and>
         (\<forall>p. p \<noteq> s \<and> p \<noteq> new \<longrightarrow> users m' p = users m p)"
    using cp mt new m' len comps other other [OF ne] u1 u2 by blast
next
  assume "Run ndebug gm m = (r, m'')"
  then have eq: "mask_data_operands m'' = mask_data_operands m"
    unfolding Run_concat by (rule run_instructions_mask)
  from mask_length [OF eq] show "length (instructions m'') = length (instructions m)" .
  from mask_computations [OF eq] show "computations m'' = computations m" .
  from mask_deref [OF eq]
  show "\<forall>p x. deref m p = Some x \<longrightarrow>
         (\<exists>new. deref m'' p =
            Some (if opcode x = kCollectivePermute
                  then x\<lparr>operands := (operands x)[0 := new]\<rparr> else x))"
    by blast
qed

theorem fold_changes_one_slot_witness:
  "TryFoldColectivePermuteOfSelect True channel_group_mode
     (permute_module kPartitionId kNe 5 (Some 1) [(1, 0)]) 6 =
     (Inr True, permute_module kPartitionId kNe 3 (Some 1) [(1, 0)]) \<and>
   deref (permute_module kPartitionId kNe 3 (Some 1) [(1, 0)]) 5 = Some (instr kSelect [2, 3, 4]) \<and>
   length (instructions (permute_module kPartitionId kNe 3 (Some 1) [(1, 0)])) = 7 \<and>
   users (permute_module kPartitionId kNe 5 (Some 1) [(1, 0)]) 5 = [6] \<and>
   users (permute_module kPartitionId kNe 3 (Some 1) [(1, 0)]) 5 = [] \<and>
   users (permute_module kPartitionId kNe 3 (Some 1) [(1, 0)]) 3 = [5, 6]"
proof -
  have fold: "TryFoldColectivePermuteOfSelect True channel_group_mode
     (permute_module kPartitionId kNe 5 (Some 1) [(1, 0)]) 6 =
     (Inr True, permute_module kPartitionId kNe 3 (Some 1) [(1, 0)])"
    by code_simp
  have "deref (permute_module kPartitionId kNe 5 (Some 1) [(1, 0)]) 5 =
          Some (instr kSelect [2, 3, 4])"
    by (simp add: example_defs)
  moreover
  from fold_changes_one_slot [of True channel_group_mode
      "permute_module kPartitionId kNe 5 (Some 1) [(1, 0)]" 6
      "permute_module kPartitionId kNe 3 (Some 1) [(1, 0)]"] fold
  have "\<forall>p. p \<noteq> 6 \<longrightarrow> deref (permute_module kPartitionId kNe 3 (Some 1) [(1, 0)]) p =
          deref (permute_module kPartitionId kNe 5 (Some 1) [(1, 0)]) p"
    and "length (instructions (permute_module kPartitionId kNe 3 (Some 1) [(1, 0)])) =
         length (instructions (permute_module kPartitionId kNe 5 (Some 1) [(1, 0)]))"
    by blast+
  moreover have "users (permute_module kPartitionId kNe 5 (Some 1) [(1, 0)]) 5 = [6]"
    "users (permute_module kPartitionId kNe 3 (Some 1) [(1, 0)]) 5 = []"
    "users (permute_module kPartitionId kNe 3 (Some 1) [(1, 0)]) 3 = [5, 6]"
    by code_simp+
  ultimately show ?thesis
    using fold by (simp add: permute_module_def select_graph_def)
qed

end
